theory Spec2Isabelle
  imports Main
begin


section \<open>The durable store (src/db/connection.py, src/db/migrations.py)\<close>

text \<open>
  The bot keeps one SQLite connection per process. The tables used by the ledger and by
  the session store are the ones created in \<^verbatim>\<open>migrations.py\<close>: \<^verbatim>\<open>bean_accounts\<close>,
  \<^verbatim>\<open>bean_transactions\<close> and \<^verbatim>\<open>active_game_sessions\<close>. A table is the list of its rows in
  insertion order. Python integers are unbounded, so balances and deltas are \<^typ>\<open>int\<close>;
  SQLite keeps an \<^verbatim>\<open>INTEGER\<close> column in 64 bits, and the values are taken to stay in
  that range, where its arithmetic is exact. A timestamp is the text produced by
  \<^verbatim>\<open>datetime('now')\<close>.

  Repository calls are taken one at a time: a call runs from its first statement to its
  return with no statement of another call in between.
\<close>

type_synonym timestamp = string

record account_row =
  user_id :: int
  balance :: int
  acc_created_at :: timestamp
  acc_updated_at :: timestamp

record transaction_row =
  txn_id :: nat
  txn_user_id :: int
  delta :: int
  reason :: string
  txn_game_key :: "string option"
  metadata :: "string option"
  txn_created_at :: timestamp

record session_row =
  sid :: string
  platform :: string
  location_id :: string
  thread_id :: "string option"
  game_key :: string
  status :: string
  state :: string
  created_at :: timestamp
  updated_at :: timestamp
  expires_at :: "string option"

text \<open>
  \<open>txn_seq\<close> is the AUTOINCREMENT counter of \<^verbatim>\<open>bean_transactions\<close> (SQLite keeps it in
  \<^verbatim>\<open>sqlite_sequence\<close>, inside the database, so a rollback restores it too).
\<close>

record tables =
  bean_accounts :: "account_row list"
  bean_transactions :: "transaction_row list"
  txn_seq :: nat
  active_game_sessions :: "session_row list"

text \<open>
  A connection sees its own uncommitted writes: \<open>working\<close> is what its statements read
  and write, \<open>committed\<close> is the durable content. \<^verbatim>\<open>commit()\<close> makes the working
  content durable, \<^verbatim>\<open>rollback()\<close> throws it away.
\<close>

record conn =
  committed :: tables
  working :: tables

definition commit :: "conn \<Rightarrow> conn" where
  "commit c = c\<lparr>committed := working c\<rparr>"

definition rollback :: "conn \<Rightarrow> conn" where
  "rollback c = c\<lparr>working := committed c\<rparr>"

text \<open>
  Exceptions. \<open>OperationalError\<close> stands for any error raised while the connection runs
  a statement: an I/O failure, the 5 s busy timeout, the \<^verbatim>\<open>RuntimeError\<close> of the
  \<^verbatim>\<open>conn\<close> property when \<^verbatim>\<open>connect()\<close> has not run, a \<^verbatim>\<open>BEGIN\<close> inside a
  transaction that an earlier failure left open, or a violated constraint that involves a
  table outside this development: with \<^verbatim>\<open>PRAGMA foreign_keys = ON\<close> the two ledger
  tables reference \<^verbatim>\<open>users(id)\<close>, so a statement that inserts a row for a user id
  without a \<^verbatim>\<open>users\<close> row raises. The constraints within the three tables (the
  primary keys, handled by \<^verbatim>\<open>OR IGNORE\<close> and \<^verbatim>\<open>ON CONFLICT\<close>) are part of the
  statements below. \<open>TypeError\<close> is what \<^verbatim>\<open>json.dumps\<close> raises on a state it cannot
  serialise.
\<close>

datatype error = OperationalError | TypeError

text \<open>
  The environment of one repository call. Its store calls are numbered from 0 in the
  order the source awaits them; \<open>fault\<close> names the store call that raises, if any, and
  \<open>clock k\<close> is the value \<^verbatim>\<open>datetime('now')\<close> has while store call \<open>k\<close> runs.
  Only statements raise here: a failing \<^verbatim>\<open>commit()\<close> is outside the model.
\<close>

record env =
  fault :: "nat option"
  clock :: "nat \<Rightarrow> timestamp"

text \<open>A computation on the connection either raises or returns, and leaves a connection.\<close>

type_synonym 'a db_action = "conn \<Rightarrow> (error + 'a) \<times> conn"

definition return :: "'a \<Rightarrow> 'a db_action" where
  "return v c = (Inr v, c)"

definition raise :: "error \<Rightarrow> 'a db_action" where
  "raise e c = (Inl e, c)"

definition bind :: "'a db_action \<Rightarrow> ('a \<Rightarrow> 'b db_action) \<Rightarrow> 'b db_action" where
  "bind m f c = (case m c of (Inl e, c') \<Rightarrow> (Inl e, c') | (Inr v, c') \<Rightarrow> f v c')"

text \<open>
  \<^verbatim>\<open>await conn.execute(sql, params)\<close>: a statement is a function from the current
  timestamp and the working tables to its result (rows, or a row count) and the new
  working tables. A statement that raises changes nothing.
\<close>

definition conn_execute ::
  "env \<Rightarrow> nat \<Rightarrow> (timestamp \<Rightarrow> tables \<Rightarrow> 'r \<times> tables) \<Rightarrow> 'r db_action" where
  "conn_execute e k stmt c =
     (if fault e = Some k then (Inl OperationalError, c)
      else (case stmt (clock e k) (working c) of
              (r, t) \<Rightarrow> (Inr r, c\<lparr>working := t\<rparr>)))"

text \<open>\<^verbatim>\<open>Database.execute\<close>: run the statement and commit immediately; returns nothing.\<close>

definition execute :: "env \<Rightarrow> nat \<Rightarrow> (timestamp \<Rightarrow> tables \<Rightarrow> 'r \<times> tables) \<Rightarrow> unit db_action" where
  "execute e k stmt = bind (conn_execute e k stmt) (\<lambda>_ c. (Inr (), commit c))"

text \<open>\<^verbatim>\<open>cursor.fetchone()\<close>: the first row of the result, or \<^verbatim>\<open>None\<close>.\<close>

definition cursor_fetchone :: "'row list \<Rightarrow> 'row option" where
  "cursor_fetchone rows = (case rows of [] \<Rightarrow> None | r # _ \<Rightarrow> Some r)"

text \<open>\<^verbatim>\<open>Database.fetchone\<close>: run the query and return its first row; no commit.\<close>

definition fetchone ::
  "env \<Rightarrow> nat \<Rightarrow> (timestamp \<Rightarrow> tables \<Rightarrow> 'row list \<times> tables) \<Rightarrow> 'row option db_action" where
  "fetchone e k query = bind (conn_execute e k query) (\<lambda>rows. return (cursor_fetchone rows))"

text \<open>
  \<^verbatim>\<open>Database.transaction\<close>, the atomic unit:
  \<^verbatim>\<open>
  try:
      await self.conn.execute("BEGIN;")
      yield self.conn
  except Exception:
      await self.conn.rollback()
      raise
  else:
      await self.conn.commit()
  \<close>
  \<^verbatim>\<open>BEGIN\<close> is store call 0 of the unit; the body numbers its own calls from 1. A
  \<^verbatim>\<open>return\<close> inside the body leaves the \<^verbatim>\<open>async with\<close> block normally, so it commits.
\<close>

definition sql_begin :: "timestamp \<Rightarrow> tables \<Rightarrow> unit \<times> tables" where
  "sql_begin now t = ((), t)"

definition transaction :: "env \<Rightarrow> 'a db_action \<Rightarrow> 'a db_action" where
  "transaction e body c =
     (case conn_execute e 0 sql_begin c of
        (Inl x, c0) \<Rightarrow> (Inl x, rollback c0)
      | (Inr _, c0) \<Rightarrow>
          (case body c0 of
             (Inl x, c1) \<Rightarrow> (Inl x, rollback c1)
           | (Inr v, c1) \<Rightarrow> (Inr v, commit c1)))"

section \<open>The ledger (src/db/repo/economy_repo.py)\<close>

text \<open>\<^verbatim>\<open>SELECT balance FROM bean_accounts WHERE user_id = ?\<close>\<close>

definition sql_select_balance :: "int \<Rightarrow> timestamp \<Rightarrow> tables \<Rightarrow> int list \<times> tables" where
  "sql_select_balance u now t =
     (map balance (filter (\<lambda>r. user_id r = u) (bean_accounts t)), t)"

text \<open>
  \<^verbatim>\<open>INSERT OR IGNORE INTO bean_accounts (user_id, balance) VALUES (?, 0)\<close>: \<^verbatim>\<open>user_id\<close>
  is the primary key, so the row is skipped when one with that key exists; the two
  timestamp columns take their default \<^verbatim>\<open>datetime('now')\<close>.
\<close>

definition sql_insert_or_ignore_account :: "int \<Rightarrow> timestamp \<Rightarrow> tables \<Rightarrow> unit \<times> tables" where
  "sql_insert_or_ignore_account u now t =
     ((), if \<exists>r \<in> set (bean_accounts t). user_id r = u then t
          else t\<lparr>bean_accounts := bean_accounts t @
                 [\<lparr>user_id = u, balance = 0, acc_created_at = now, acc_updated_at = now\<rparr>]\<rparr>)"

text \<open>
  \<^verbatim>\<open>INSERT INTO bean_transactions (user_id, delta, reason, game_key, metadata) VALUES (?,?,?,?,?)\<close>:
  the AUTOINCREMENT key is one more than the largest key the table ever held.
\<close>

definition next_txn_id :: "tables \<Rightarrow> nat" where
  "next_txn_id t = Suc (fold max (map txn_id (bean_transactions t)) (txn_seq t))"

definition sql_insert_transaction ::
  "int \<Rightarrow> int \<Rightarrow> string \<Rightarrow> string option \<Rightarrow> string option \<Rightarrow> timestamp \<Rightarrow> tables \<Rightarrow> unit \<times> tables" where
  "sql_insert_transaction u d rsn gk md now t =
     ((), t\<lparr>bean_transactions := bean_transactions t @
              [\<lparr>txn_id = next_txn_id t, txn_user_id = u, delta = d, reason = rsn,
                txn_game_key = gk, metadata = md, txn_created_at = now\<rparr>],
            txn_seq := next_txn_id t\<rparr>)"

text \<open>
  \<^verbatim>\<open>UPDATE bean_accounts SET balance = balance + ?, updated_at = datetime('now') WHERE user_id = ?\<close>
\<close>

definition sql_update_balance :: "int \<Rightarrow> int \<Rightarrow> timestamp \<Rightarrow> tables \<Rightarrow> unit \<times> tables" where
  "sql_update_balance d u now t =
     ((), t\<lparr>bean_accounts :=
              map (\<lambda>r. if user_id r = u
                        then r\<lparr>balance := balance r + d, acc_updated_at := now\<rparr> else r)
                  (bean_accounts t)\<rparr>)"

text \<open>
  \<^verbatim>\<open>EconomyRepository.get_balance\<close>:
  \<^verbatim>\<open>
  row = await self._db.fetchone("SELECT balance ...", (user_id,))
  if not row:
      await self._db.execute("INSERT OR IGNORE INTO bean_accounts ...", (user_id,))
      return 0
  return int(row["balance"])
  \<close>
\<close>

definition get_balance :: "env \<Rightarrow> int \<Rightarrow> int db_action" where
  "get_balance e u =
     bind (fetchone e 0 (sql_select_balance u)) (\<lambda>row.
       case row of
         None \<Rightarrow> bind (execute e 1 (sql_insert_or_ignore_account u)) (\<lambda>_. return 0)
       | Some b \<Rightarrow> return b)"

text \<open>
  \<^verbatim>\<open>EconomyRepository.apply_transaction\<close>: inside one \<^verbatim>\<open>transaction()\<close> block, the four
  statements in the order of the source, then \<^verbatim>\<open>cur.fetchone()\<close> (store call 5) and
  \<^verbatim>\<open>return int(row["balance"]) if row else 0\<close>.
\<close>

definition apply_transaction_body ::
  "env \<Rightarrow> int \<Rightarrow> int \<Rightarrow> string \<Rightarrow> string option \<Rightarrow> string option \<Rightarrow> int db_action" where
  "apply_transaction_body e u d rsn gk md =
     bind (conn_execute e 1 (sql_insert_or_ignore_account u)) (\<lambda>_.
     bind (conn_execute e 2 (sql_insert_transaction u d rsn gk md)) (\<lambda>_.
     bind (conn_execute e 3 (sql_update_balance d u)) (\<lambda>_.
     bind (conn_execute e 4 (sql_select_balance u)) (\<lambda>cur.
       if fault e = Some 5 then raise OperationalError
       else return (case cursor_fetchone cur of Some b \<Rightarrow> b | None \<Rightarrow> 0)))))"

definition apply_transaction ::
  "env \<Rightarrow> int \<Rightarrow> int \<Rightarrow> string \<Rightarrow> string option \<Rightarrow> string option \<Rightarrow> int db_action" where
  "apply_transaction e u d rsn gk md = transaction e (apply_transaction_body e u d rsn gk md)"

section \<open>The session store (src/db/repo/games_repo.py)\<close>

text \<open>
  SQL comparisons are three-valued: a comparison with \<^verbatim>\<open>NULL\<close> is \<^verbatim>\<open>NULL\<close> (here
  \<open>None\<close>), \<^verbatim>\<open>IS\<close> never is, and a \<^verbatim>\<open>WHERE\<close> clause keeps a row only when it
  evaluates to true. A column or parameter that may be \<^verbatim>\<open>NULL\<close> is an option.
\<close>

definition sql_eq :: "'a option \<Rightarrow> 'a option \<Rightarrow> bool option" where
  "sql_eq a b = (case (a, b) of (Some x, Some y) \<Rightarrow> Some (x = y) | _ \<Rightarrow> None)"

definition sql_is :: "'a option \<Rightarrow> 'a option \<Rightarrow> bool option" where
  "sql_is a b = Some (a = b)"

definition sql_or :: "bool option \<Rightarrow> bool option \<Rightarrow> bool option" where
  "sql_or a b =
     (if a = Some True \<or> b = Some True then Some True
      else if a = Some False \<and> b = Some False then Some False else None)"

definition sql_and :: "bool option \<Rightarrow> bool option \<Rightarrow> bool option" where
  "sql_and a b =
     (if a = Some False \<or> b = Some False then Some False
      else if a = Some True \<and> b = Some True then Some True else None)"

definition sql_true :: "bool option \<Rightarrow> bool" where
  "sql_true v = (v = Some True)"

text \<open>
  The \<^verbatim>\<open>WHERE\<close> clause shared by \<^verbatim>\<open>get_active_session\<close> and \<^verbatim>\<open>end_active_in_location\<close>:
  \<^verbatim>\<open>
  WHERE platform = ? AND location_id = ? AND (thread_id IS ? OR thread_id = ?)
    AND game_key = ? AND status = 'active'
  \<close>
  with the parameters \<^verbatim>\<open>(platform, location_id, thread_id, thread_id, game_key)\<close>.
\<close>

definition active_in_scope_where ::
  "string \<Rightarrow> string \<Rightarrow> string option \<Rightarrow> string \<Rightarrow> session_row \<Rightarrow> bool option" where
  "active_in_scope_where p l th g r =
     sql_and (sql_eq (Some (platform r)) (Some p))
    (sql_and (sql_eq (Some (location_id r)) (Some l))
    (sql_and (sql_or (sql_is (thread_id r) th) (sql_eq (thread_id r) th))
    (sql_and (sql_eq (Some (game_key r)) (Some g))
             (sql_eq (Some (status r)) (Some ''active'')))))"

text \<open>
  \<^verbatim>\<open>SELECT id, platform, ... FROM active_game_sessions WHERE ... LIMIT 1\<close>. SQL does not
  say which matching row \<^verbatim>\<open>LIMIT 1\<close> keeps; here it is the first in table order.
\<close>

definition sql_select_active ::
  "string \<Rightarrow> string \<Rightarrow> string option \<Rightarrow> string \<Rightarrow> timestamp \<Rightarrow> tables \<Rightarrow> session_row list \<times> tables" where
  "sql_select_active p l th g now t =
     (take 1 (filter (\<lambda>r. sql_true (active_in_scope_where p l th g r)) (active_game_sessions t)), t)"

text \<open>
  The object \<^verbatim>\<open>get_active_session\<close> returns; its class \<^verbatim>\<open>ActiveGameSession\<close>
  (\<^verbatim>\<open>src/domain/models.py\<close>) is built with exactly these keyword arguments.
\<close>

record ActiveGameSession =
  ags_id :: string
  ags_platform :: string
  ags_location_id :: string
  ags_thread_id :: "string option"
  ags_game_key :: string
  ags_status :: string
  ags_state_json :: string
  ags_created_at :: timestamp
  ags_updated_at :: timestamp
  ags_expires_at :: "string option"

definition session_of_row :: "session_row \<Rightarrow> ActiveGameSession" where
  "session_of_row r =
     \<lparr>ags_id = sid r, ags_platform = platform r, ags_location_id = location_id r,
      ags_thread_id = thread_id r, ags_game_key = game_key r, ags_status = status r,
      ags_state_json = state r, ags_created_at = created_at r,
      ags_updated_at = updated_at r, ags_expires_at = expires_at r\<rparr>"

definition get_active_session ::
  "env \<Rightarrow> string \<Rightarrow> string \<Rightarrow> string option \<Rightarrow> string \<Rightarrow> ActiveGameSession option db_action" where
  "get_active_session e p l th g =
     bind (fetchone e 0 (sql_select_active p l th g)) (\<lambda>row.
       case row of None \<Rightarrow> return None | Some r \<Rightarrow> return (Some (session_of_row r)))"

text \<open>
  \<^verbatim>\<open>
  INSERT INTO active_game_sessions (id, platform, location_id, thread_id, game_key,
                                    status, state, created_at, updated_at, expires_at)
  VALUES (?, ?, ?, ?, ?, 'active', ?, datetime('now'), datetime('now'), ?)
  ON CONFLICT(id) DO UPDATE SET status = 'active', state = excluded.state,
      updated_at = datetime('now'), expires_at = excluded.expires_at
  \<close>
  \<^verbatim>\<open>id\<close> is the primary key: a row with that id is updated in place, otherwise the new
  row is appended.
\<close>

definition sql_upsert_session ::
  "string \<Rightarrow> string \<Rightarrow> string \<Rightarrow> string option \<Rightarrow> string \<Rightarrow> string \<Rightarrow> string option \<Rightarrow>
   timestamp \<Rightarrow> tables \<Rightarrow> unit \<times> tables" where
  "sql_upsert_session i p l th g st ex now t =
     ((), if \<exists>r \<in> set (active_game_sessions t). sid r = i
          then t\<lparr>active_game_sessions :=
                 map (\<lambda>r. if sid r = i
                           then r\<lparr>status := ''active'', state := st, updated_at := now,
                                  expires_at := ex\<rparr>
                           else r)
                     (active_game_sessions t)\<rparr>
          else t\<lparr>active_game_sessions := active_game_sessions t @
                 [\<lparr>sid = i, platform = p, location_id = l, thread_id = th, game_key = g,
                   status = ''active'', state = st, created_at = now, updated_at = now,
                   expires_at = ex\<rparr>]\<rparr>)"

text \<open>
  \<^verbatim>\<open>GamesRepository.upsert_active_session\<close>: \<^verbatim>\<open>json.dumps(state, ensure_ascii=False)\<close>
  first, then the statement through \<^verbatim>\<open>Database.execute\<close>. The state is a Python dict the
  store never looks into; the serialiser is a parameter, and it may raise.
\<close>

definition upsert_active_session ::
  "('st \<Rightarrow> error + string) \<Rightarrow> env \<Rightarrow> string \<Rightarrow> string \<Rightarrow> string \<Rightarrow> string option \<Rightarrow> string \<Rightarrow>
   'st \<Rightarrow> string option \<Rightarrow> unit db_action" where
  "upsert_active_session json_dumps e session_id p l th g st ex =
     (case json_dumps st of
        Inl x \<Rightarrow> raise x
      | Inr state_json \<Rightarrow> execute e 0 (sql_upsert_session session_id p l th g state_json ex))"

text \<open>\<^verbatim>\<open>UPDATE active_game_sessions SET status = ?, updated_at = datetime('now') WHERE id = ?\<close>\<close>

definition sql_end_session :: "string \<Rightarrow> string \<Rightarrow> timestamp \<Rightarrow> tables \<Rightarrow> unit \<times> tables" where
  "sql_end_session st i now t =
     ((), t\<lparr>active_game_sessions :=
              map (\<lambda>r. if sid r = i then r\<lparr>status := st, updated_at := now\<rparr> else r)
                  (active_game_sessions t)\<rparr>)"

text \<open>\<^verbatim>\<open>GamesRepository.end_session(session_id, status="ended")\<close>\<close>

definition end_session :: "env \<Rightarrow> string \<Rightarrow> string \<Rightarrow> unit db_action" where
  "end_session e session_id st = execute e 0 (sql_end_session st session_id)"

text \<open>
  \<^verbatim>\<open>UPDATE active_game_sessions SET status = ?, updated_at = datetime('now') WHERE ...\<close>
  with the clause above; the result is \<^verbatim>\<open>cursor.rowcount\<close>.
\<close>

definition sql_end_active ::
  "string \<Rightarrow> string \<Rightarrow> string \<Rightarrow> string option \<Rightarrow> string \<Rightarrow> timestamp \<Rightarrow> tables \<Rightarrow> nat \<times> tables" where
  "sql_end_active st p l th g now t =
     (length (filter (\<lambda>r. sql_true (active_in_scope_where p l th g r)) (active_game_sessions t)),
      t\<lparr>active_game_sessions :=
          map (\<lambda>r. if sql_true (active_in_scope_where p l th g r)
                    then r\<lparr>status := st, updated_at := now\<rparr> else r)
              (active_game_sessions t)\<rparr>)"

text \<open>\<^verbatim>\<open>GamesRepository.end_active_in_location\<close>: the update inside \<^verbatim>\<open>transaction()\<close>.\<close>

definition end_active_in_location ::
  "env \<Rightarrow> string \<Rightarrow> string \<Rightarrow> string option \<Rightarrow> string \<Rightarrow> string \<Rightarrow> nat db_action" where
  "end_active_in_location e p l th g st =
     transaction e (conn_execute e 1 (sql_end_active st p l th g))"

section \<open>The coalescing scheduler (src/services/leaderboard_publisher.py)\<close>




datatype channel = TextChannel | Thread | OtherChannel




















section \<open>Notions used in the statements\<close>

text \<open>An environment in which the store raises nothing during the call.\<close>

definition no_fault :: "(nat \<Rightarrow> timestamp) \<Rightarrow> env" where
  "no_fault clk = \<lparr>fault = None, clock = clk\<rparr>"

text \<open>The balance the store holds for an account: that of its row, and 0 while the account
  has no row yet (the value \<^verbatim>\<open>get_balance\<close> reports for it).\<close>

definition account_balance :: "tables \<Rightarrow> int \<Rightarrow> int" where
  "account_balance t u =
     (case find (\<lambda>r. user_id r = u) (bean_accounts t) of None \<Rightarrow> 0 | Some r \<Rightarrow> balance r)"

text \<open>The working tables after the three writes of \<^verbatim>\<open>apply_transaction\<close>, in order.\<close>

definition ledger_write ::
  "env \<Rightarrow> int \<Rightarrow> int \<Rightarrow> string \<Rightarrow> string option \<Rightarrow> string option \<Rightarrow> tables \<Rightarrow> tables" where
  "ledger_write e u d rsn gk md t =
     snd (sql_update_balance d u (clock e 3)
       (snd (sql_insert_transaction u d rsn gk md (clock e 2)
         (snd (sql_insert_or_ignore_account u (clock e 1) t)))))"



text \<open>A database right after the migrations, and a connection to it.\<close>

definition empty_tables :: tables where
  "empty_tables = \<lparr>bean_accounts = [], bean_transactions = [], txn_seq = 0, active_game_sessions = []\<rparr>"

definition fresh_conn :: conn where
  "fresh_conn = \<lparr>committed = empty_tables, working = empty_tables\<rparr>"

text \<open>The rows of one account in each ledger table.\<close>

definition account_rows :: "tables \<Rightarrow> int \<Rightarrow> account_row list" where
  "account_rows t u = filter (\<lambda>r. user_id r = u) (bean_accounts t)"



text \<open>A small database for the worked examples: one account with one transaction.\<close>

definition sample_clock :: "nat \<Rightarrow> timestamp" where
  "sample_clock k = ''2024-05-01 12:00:00''"

definition sample_tables :: tables where
  "sample_tables =
     \<lparr>bean_accounts = [\<lparr>user_id = 1, balance = 10, acc_created_at = ''2024-04-30 09:00:00'',
                         acc_updated_at = ''2024-04-30 09:05:00''\<rparr>],
      bean_transactions = [\<lparr>txn_id = 1, txn_user_id = 1, delta = 10, reason = ''reward'',
                             txn_game_key = Some ''wordle'', metadata = None,
                             txn_created_at = ''2024-04-30 09:05:00''\<rparr>],
      txn_seq = 1,
      active_game_sessions = []\<rparr>"

definition sample_conn :: conn where
  "sample_conn = \<lparr>committed = sample_tables, working = sample_tables\<rparr>"

section \<open>The session store: notions used in the statements\<close>

text \<open>The scope match in the spec's words: platform, location and game equal, and the thread
  tri-state: an absent thread matches only rows without a thread, a present one only rows
  with that same thread.\<close>

definition in_scope :: "string \<Rightarrow> string \<Rightarrow> string option \<Rightarrow> string \<Rightarrow> session_row \<Rightarrow> bool" where
  "in_scope p l th g r =
     (platform r = p \<and> location_id r = l \<and> game_key r = g \<and>
      (case th of None \<Rightarrow> thread_id r = None | Some x \<Rightarrow> thread_id r = Some x))"

text \<open>The active sessions of a scope, in table order.\<close>

definition active_in_scope ::
  "string \<Rightarrow> string \<Rightarrow> string option \<Rightarrow> string \<Rightarrow> tables \<Rightarrow> session_row list" where
  "active_in_scope p l th g t =
     filter (\<lambda>r. in_scope p l th g r \<and> status r = ''active'') (active_game_sessions t)"

text \<open>The row with a given id (\<^verbatim>\<open>id\<close> is the primary key), and its status.\<close>

definition session_by_id :: "tables \<Rightarrow> string \<Rightarrow> session_row option" where
  "session_by_id t i = find (\<lambda>r. sid r = i) (active_game_sessions t)"

definition session_status :: "tables \<Rightarrow> string \<Rightarrow> string option" where
  "session_status t i = map_option status (session_by_id t i)"

text \<open>The row update of \<^verbatim>\<open>ON CONFLICT(id) DO UPDATE SET ...\<close>.\<close>

definition upserted :: "string \<Rightarrow> string option \<Rightarrow> timestamp \<Rightarrow> session_row \<Rightarrow> session_row" where
  "upserted st ex now r = r\<lparr>status := ''active'', state := st, updated_at := now, expires_at := ex\<rparr>"

text \<open>The four operations of the session store, as data, and the connection each leaves
  behind (whether it returns or raises).\<close>

datatype 'st session_op =
  GetActive string string "string option" string
| UpsertActive string string string "string option" string 'st "string option"
| End string string
| EndActiveInScope string string "string option" string string

definition run_session_op :: "('st \<Rightarrow> error + string) \<Rightarrow> env \<times> 'st session_op \<Rightarrow> conn \<Rightarrow> conn" where
  "run_session_op json_dumps x c =
     (case snd x of
        GetActive p l th g \<Rightarrow> snd (get_active_session (fst x) p l th g c)
      | UpsertActive i p l th g st ex \<Rightarrow> snd (upsert_active_session json_dumps (fst x) i p l th g st ex c)
      | End i st \<Rightarrow> snd (end_session (fst x) i st c)
      | EndActiveInScope p l th g st \<Rightarrow> snd (end_active_in_location (fst x) p l th g st c))"

text \<open>The calls that write the status column of session \<open>i\<close> with something else than
  \<open>ended\<close>: an upsert with that id, and \<^verbatim>\<open>end_session\<close> of that id with another status.\<close>

definition rewrites_status :: "string \<Rightarrow> 'st session_op \<Rightarrow> bool" where
  "rewrites_status i op =
     (case op of
        UpsertActive j p l th g st ex \<Rightarrow> j = i
      | End j st \<Rightarrow> j = i \<and> st \<noteq> ''ended''
      | _ \<Rightarrow> False)"

text \<open>For the worked examples: a state that is already JSON text, a later clock reading, and
  databases built by the operations themselves.\<close>

definition raw_json :: "string \<Rightarrow> error + string" where
  "raw_json s = Inr s"

definition later_clock :: "nat \<Rightarrow> timestamp" where
  "later_clock k = ''2024-05-01 12:30:00''"

definition ended_conn :: conn where
  "ended_conn =
     snd (end_session (no_fault sample_clock) ''id1'' ''ended''
       (snd (upsert_active_session raw_json (no_fault sample_clock)
               ''id1'' ''discord'' ''42'' None ''wordle'' ''{x: 1}'' None fresh_conn)))"



section \<open>The coalescing scheduler: notions used in the statements\<close>










section \<open>The ledger: lemmas\<close>

lemma conn_execute_ok:
  "fault e \<noteq> Some k \<Longrightarrow>
   conn_execute e k stmt c =
     (Inr (fst (stmt (clock e k) (working c))), c\<lparr>working := snd (stmt (clock e k) (working c))\<rparr>)"
  by (simp add: conn_execute_def split: prod.splits)

lemma conn_execute_fault:
  "fault e = Some k \<Longrightarrow> conn_execute e k stmt c = (Inl OperationalError, c)"
  by (simp add: conn_execute_def)

lemma fetchone_first_balance:
  "cursor_fetchone (map balance (filter (\<lambda>r. user_id r = u) (xs :: account_row list))) =
     map_option balance (find (\<lambda>r. user_id r = u) xs)"
  by (induction xs) (simp_all add: cursor_fetchone_def)

lemma select_balance_fetchone:
  "(case cursor_fetchone (fst (sql_select_balance u now t)) of Some b \<Rightarrow> b | None \<Rightarrow> 0) = account_balance t u"
  by (cases "find (\<lambda>r. user_id r = u) (bean_accounts t)")
     (simp_all add: sql_select_balance_def account_balance_def fetchone_first_balance)

lemma select_balance_snd: "snd (sql_select_balance u now t) = t"
  by (simp add: sql_select_balance_def)

lemma apply_transaction_no_fault:
  assumes "fault e = None"
  shows "apply_transaction e u d rsn gk md c =
     (Inr (account_balance (ledger_write e u d rsn gk md (working c)) u),
      \<lparr>committed = ledger_write e u d rsn gk md (working c),
       working = ledger_write e u d rsn gk md (working c)\<rparr>)"
  using assms
  by (simp add: apply_transaction_def transaction_def apply_transaction_body_def bind_def
      conn_execute_ok return_def commit_def ledger_write_def sql_begin_def select_balance_fetchone
      select_balance_snd)



lemma ledger_write_sessions:
  "active_game_sessions (ledger_write e u d rsn gk md t) = active_game_sessions t"
  by (auto simp: ledger_write_def sql_update_balance_def sql_insert_transaction_def
      sql_insert_or_ignore_account_def)



lemma find_absent: "v \<notin> user_id ` set (xs :: account_row list) \<Longrightarrow> find (\<lambda>r. user_id r = v) xs = None"
  by (induction xs) simp_all

lemma find_present: "v \<in> user_id ` set (xs :: account_row list) \<Longrightarrow> \<exists>r. find (\<lambda>r. user_id r = v) xs = Some r"
  by (induction xs) auto

lemma find_append_new:
  "find P (xs @ [x]) = (case find P xs of Some r \<Rightarrow> Some r | None \<Rightarrow> if P x then Some x else None)"
  by (induction xs) simp_all


lemma apply_transaction_unfaulted:
  assumes "\<forall>k\<le>5. fault e \<noteq> Some k"
  shows "apply_transaction e u d rsn gk md c =
     (Inr (account_balance (ledger_write e u d rsn gk md (working c)) u),
      \<lparr>committed = ledger_write e u d rsn gk md (working c),
       working = ledger_write e u d rsn gk md (working c)\<rparr>)"
proof -
  have f: "fault e \<noteq> Some 0" "fault e \<noteq> Some 1" "fault e \<noteq> Some 2" "fault e \<noteq> Some 3"
    "fault e \<noteq> Some 4" "fault e \<noteq> Some 5"
    using assms by simp_all
  show ?thesis
    using f
    by (simp add: apply_transaction_def transaction_def apply_transaction_body_def bind_def
      conn_execute_ok
      return_def commit_def ledger_write_def sql_begin_def select_balance_fetchone
      select_balance_snd)
qed

lemma apply_transaction_faulted:
  assumes "fault e = Some k" "k \<le> 5"
  shows "apply_transaction e u d rsn gk md c = (Inl OperationalError, rollback c)"
proof -
  from assms(2) consider "k = 0" | "k = 1" | "k = 2" | "k = 3" | "k = 4" | "k = 5"
    by linarith
  then show ?thesis
  proof cases
    case 1
    then show ?thesis using assms(1)
      by (simp add: apply_transaction_def transaction_def conn_execute_def)
  next
    case 2
    then show ?thesis using assms(1)
      by (simp add: apply_transaction_def transaction_def apply_transaction_body_def bind_def
          conn_execute_def sql_begin_def rollback_def)
  next
    case 3
    then show ?thesis using assms(1)
      by (simp add: apply_transaction_def transaction_def apply_transaction_body_def bind_def
          conn_execute_def sql_begin_def rollback_def split: prod.splits)
  next
    case 4
    then show ?thesis using assms(1)
      by (simp add: apply_transaction_def transaction_def apply_transaction_body_def bind_def
          conn_execute_def sql_begin_def rollback_def split: prod.splits)
  next
    case 5
    then show ?thesis using assms(1)
      by (simp add: apply_transaction_def transaction_def apply_transaction_body_def bind_def
          conn_execute_def sql_begin_def rollback_def split: prod.splits)
  next
    case 6
    then show ?thesis using assms(1)
      by (simp add: apply_transaction_def transaction_def apply_transaction_body_def bind_def
          conn_execute_def sql_begin_def rollback_def raise_def split: prod.splits)
  qed
qed

lemma conn_working_same: "c\<lparr>working := working c\<rparr> = c"
  by simp

lemma get_balance_present:
  assumes "fault e \<noteq> Some 0" "u \<in> user_id ` set (bean_accounts (working c))"
  shows "get_balance e u c = (Inr (account_balance (working c) u), c)"
proof -
  obtain r where r: "find (\<lambda>r. user_id r = u) (bean_accounts (working c)) = Some r"
    using assms(2) find_present by blast
  show ?thesis using assms(1) r
    by (simp add: get_balance_def fetchone_def bind_def conn_execute_ok return_def
        sql_select_balance_def fetchone_first_balance account_balance_def)
qed

lemma get_balance_absent:
  assumes "fault e \<noteq> Some 0" "fault e \<noteq> Some 1" "u \<notin> user_id ` set (bean_accounts (working c))"
  shows "get_balance e u c =
     (Inr 0, \<lparr>committed = snd (sql_insert_or_ignore_account u (clock e 1) (working c)),
              working = snd (sql_insert_or_ignore_account u (clock e 1) (working c))\<rparr>)"
proof -
  have r: "find (\<lambda>r. user_id r = u) (bean_accounts (working c)) = None"
    using assms(3) by (rule find_absent)
  show ?thesis using assms(1,2) r
    by (simp add: get_balance_def fetchone_def bind_def conn_execute_ok return_def execute_def
        commit_def sql_select_balance_def fetchone_first_balance)
qed

lemma get_balance_faulted:
  assumes "fault e = Some 0 \<or> (fault e = Some 1 \<and> u \<notin> user_id ` set (bean_accounts (working c)))"
  shows "get_balance e u c = (Inl OperationalError, c)"
proof (cases "fault e = Some 0")
  case True
  then show ?thesis
    by (simp add: get_balance_def fetchone_def bind_def conn_execute_def)
next
  case False
  with assms have f: "fault e = Some 1" and a: "u \<notin> user_id ` set (bean_accounts (working c))"
    by simp_all
  have r: "find (\<lambda>r. user_id r = u) (bean_accounts (working c)) = None"
    using a by (rule find_absent)
  show ?thesis using f r
    by (simp add: get_balance_def fetchone_def bind_def conn_execute_def return_def execute_def
        sql_select_balance_def fetchone_first_balance)
qed











lemma no_fault_simps: "fault (no_fault clk) = None" "clock (no_fault clk) = clk"
  by (simp_all add: no_fault_def)


section \<open>The ledger: claims\<close>




text \<open>
  Claim C3. If a statement of the atomic unit raises (any of the store calls 0 to 5),
  \<^verbatim>\<open>apply_transaction\<close> raises that error to its caller and the connection is rolled
  back; and whenever \<^verbatim>\<open>apply_transaction\<close> raises, the committed tables are the ones
  before the call and nothing uncommitted is left, so on a connection that had nothing
  pending the account row, its balance and the transactions are exactly as before.
\<close>

theorem apply_transaction_rolls_back:
  "(fault e = Some k \<and> k \<le> 5 \<longrightarrow>
      apply_transaction e u d rsn gk md c = (Inl OperationalError, rollback c)) \<and>
   (fst (apply_transaction e u d rsn gk md c) = Inl x \<longrightarrow>
      committed (snd (apply_transaction e u d rsn gk md c)) = committed c \<and>
      working (snd (apply_transaction e u d rsn gk md c)) = committed c \<and>
      (working c = committed c \<longrightarrow> snd (apply_transaction e u d rsn gk md c) = c))"
proof (cases "\<forall>k\<le>5. fault e \<noteq> Some k")
  case True
  then show ?thesis
    by (auto simp: apply_transaction_unfaulted)
next
  case False
  then obtain j where "fault e = Some j" "j \<le> 5" by auto
  then have "apply_transaction e u d rsn gk md c = (Inl OperationalError, rollback c)"
    by (rule apply_transaction_faulted)
  then show ?thesis
    by (simp add: rollback_def)
qed

text \<open>
  Claim C3, at the sample database: the \<^verbatim>\<open>UPDATE\<close> (store call 3) raises after the
  transaction row was inserted, and the insertion is undone.
\<close>

theorem apply_transaction_rolls_back_witness:
  "fault \<lparr>fault = Some 3, clock = sample_clock\<rparr> = Some 3 \<and> (3::nat) \<le> 5 \<and>
   working sample_conn = committed sample_conn \<and>
   apply_transaction \<lparr>fault = Some 3, clock = sample_clock\<rparr> 1 5 ''reward'' None None sample_conn
     = (Inl OperationalError, sample_conn) \<and>
   bean_transactions (working (snd (conn_execute \<lparr>fault = Some 3, clock = sample_clock\<rparr> 2
       (sql_insert_transaction 1 5 ''reward'' None None) sample_conn)))
     \<noteq> bean_transactions (committed sample_conn)"
  using apply_transaction_rolls_back
    [of "\<lparr>fault = Some 3, clock = sample_clock\<rparr>" 3 1 5 "''reward''" None None sample_conn OperationalError]
  by (simp add: sample_conn_def rollback_def conn_execute_def sql_insert_transaction_def)

text \<open>
  Claim C8. When the store raises nothing, \<^verbatim>\<open>get_balance\<close> always returns a balance,
  and it has no failure of its own: whenever it raises, one of its two store calls did.
  For an account with no row it returns 0 and commits exactly one row for it, with
  balance 0; a second call returns 0 again and changes nothing. For an account that has
  a row it returns the stored balance and changes nothing.
\<close>

theorem get_balance_lazy_account:
  "(\<exists>b. fst (get_balance (no_fault clk) u c) = Inr b) \<and>
   (fst (get_balance e u c) = Inl x \<longrightarrow>
      x = OperationalError \<and> (fault e = Some 0 \<or> fault e = Some 1)) \<and>
   (u \<notin> user_id ` set (bean_accounts (working c)) \<longrightarrow>
      (let c1 = snd (get_balance (no_fault clk) u c) in
         fst (get_balance (no_fault clk) u c) = Inr 0 \<and>
         account_rows (committed c1) u =
           [\<lparr>user_id = u, balance = 0, acc_created_at = clk 1, acc_updated_at = clk 1\<rparr>] \<and>
         working c1 = committed c1 \<and>
         get_balance (no_fault clk') u c1 = (Inr 0, c1))) \<and>
   (u \<in> user_id ` set (bean_accounts (working c)) \<longrightarrow>
      get_balance (no_fault clk) u c = (Inr (account_balance (working c) u), c))"
proof -
  have present: "get_balance (no_fault k) u c' = (Inr (account_balance (working c') u), c')"
    if "u \<in> user_id ` set (bean_accounts (working c'))" for k c'
    using that by (simp add: get_balance_present no_fault_simps)
  have absent: "get_balance (no_fault clk) u c =
     (Inr 0, \<lparr>committed = snd (sql_insert_or_ignore_account u (clk 1) (working c)),
              working = snd (sql_insert_or_ignore_account u (clk 1) (working c))\<rparr>)"
    if "u \<notin> user_id ` set (bean_accounts (working c))"
    using that get_balance_absent [of "no_fault clk" u c] by (simp add: no_fault_simps)
  have rows: "account_rows (snd (sql_insert_or_ignore_account u now (working c))) u =
      [\<lparr>user_id = u, balance = 0, acc_created_at = now, acc_updated_at = now\<rparr>]"
    if "u \<notin> user_id ` set (bean_accounts (working c))" for now
  proof -
    have "filter (\<lambda>r. user_id r = u) (bean_accounts (working c)) = []"
      using that by (auto simp: filter_empty_conv)
    then show ?thesis using that
      by (auto simp: account_rows_def sql_insert_or_ignore_account_def)
  qed
  have ids: "u \<in> user_id ` set (bean_accounts (snd (sql_insert_or_ignore_account u now (working c))))" for now
    by (auto simp: sql_insert_or_ignore_account_def)
  have bal: "account_balance (snd (sql_insert_or_ignore_account u now (working c))) u = 0"
    if "u \<notin> user_id ` set (bean_accounts (working c))" for now
    using rows [OF that, of now] find_absent [OF that]
    by (auto simp: account_balance_def sql_insert_or_ignore_account_def find_append_new)
  have "\<exists>b. fst (get_balance (no_fault clk) u c) = Inr b"
    by (cases "u \<in> user_id ` set (bean_accounts (working c))") (simp_all add: present absent)
  moreover have "let c1 = snd (get_balance (no_fault clk) u c) in
         fst (get_balance (no_fault clk) u c) = Inr 0 \<and>
         account_rows (committed c1) u =
           [\<lparr>user_id = u, balance = 0, acc_created_at = clk 1, acc_updated_at = clk 1\<rparr>] \<and>
         working c1 = committed c1 \<and>
         get_balance (no_fault clk') u c1 = (Inr 0, c1)"
    if "u \<notin> user_id ` set (bean_accounts (working c))"
    using that by (simp add: absent Let_def rows present ids bal)
  moreover have "x = OperationalError \<and> (fault e = Some 0 \<or> fault e = Some 1)"
    if "fst (get_balance e u c) = Inl x"
  proof (cases "fault e = Some 0 \<or> fault e = Some 1")
    case True
    show ?thesis
    proof (cases "fault e = Some 0 \<or> u \<notin> user_id ` set (bean_accounts (working c))")
      case f: True
      then have "get_balance e u c = (Inl OperationalError, c)"
        using True by (intro get_balance_faulted) auto
      with that True show ?thesis by simp
    next
      case f: False
      then have "get_balance e u c = (Inr (account_balance (working c) u), c)"
        by (intro get_balance_present) auto
      with that show ?thesis by simp
    qed
  next
    case False
    then have "\<exists>b. fst (get_balance e u c) = Inr b"
      by (cases "u \<in> user_id ` set (bean_accounts (working c))")
         (simp_all add: get_balance_present get_balance_absent)
    with that show ?thesis by auto
  qed
  ultimately show ?thesis using present by blast
qed

text \<open>Claim C8, at the sample database: account 2 has no row yet, account 1 holds 10.\<close>

theorem get_balance_lazy_account_witness:
  "2 \<notin> user_id ` set (bean_accounts (working sample_conn)) \<and>
   fst (get_balance (no_fault sample_clock) 2 sample_conn) = Inr 0 \<and>
   length (account_rows (committed (snd (get_balance (no_fault sample_clock) 2
              (snd (get_balance (no_fault sample_clock) 2 sample_conn))))) 2) = 1 \<and>
   1 \<in> user_id ` set (bean_accounts (working sample_conn)) \<and>
   get_balance (no_fault sample_clock) 1 sample_conn = (Inr 10, sample_conn) \<and>
   fst (get_balance \<lparr>fault = Some 0, clock = sample_clock\<rparr> 1 sample_conn) = Inl OperationalError"
proof -
  have a: "2 \<notin> user_id ` set (bean_accounts (working sample_conn))"
    by (simp add: sample_conn_def sample_tables_def)
  have p: "1 \<in> user_id ` set (bean_accounts (working sample_conn))"
    by (simp add: sample_conn_def sample_tables_def)
  have b: "account_balance (working sample_conn) 1 = 10"
    by (simp add: sample_conn_def sample_tables_def account_balance_def)
  show ?thesis
    using a p b
      get_balance_lazy_account [where clk = sample_clock and u = 2 and c = sample_conn
        and clk' = sample_clock and e = "\<lparr>fault = Some 0, clock = sample_clock\<rparr>"
        and x = OperationalError]
      get_balance_lazy_account [where clk = sample_clock and u = 1 and c = sample_conn
        and clk' = sample_clock and e = "\<lparr>fault = Some 0, clock = sample_clock\<rparr>"
        and x = OperationalError]
      get_balance_faulted [of "\<lparr>fault = Some 0, clock = sample_clock\<rparr>" 1 sample_conn]
    by (simp add: Let_def)
qed

section \<open>The session store: lemmas\<close>

lemma where_tri_state:
  "sql_true (active_in_scope_where p l th g r) = (in_scope p l th g r \<and> status r = ''active'')"
  by (cases th; cases "thread_id r")
     (auto simp: sql_true_def active_in_scope_where_def in_scope_def sql_and_def sql_or_def
        sql_eq_def sql_is_def)

lemma select_active_rows:
  "fst (sql_select_active p l th g now t) = take 1 (active_in_scope p l th g t)"
  by (simp add: sql_select_active_def active_in_scope_def where_tri_state)

lemma select_active_snd: "snd (sql_select_active p l th g now t) = t"
  by (simp add: sql_select_active_def)

lemma fetchone_take: "cursor_fetchone (take (Suc 0) xs) = cursor_fetchone xs"
  by (cases xs) (simp_all add: cursor_fetchone_def)

lemma get_active_session_ok:
  assumes "fault e \<noteq> Some 0"
  shows "get_active_session e p l th g c =
     (Inr (map_option session_of_row (cursor_fetchone (active_in_scope p l th g (working c)))), c)"
  using assms
  by (cases "cursor_fetchone (active_in_scope p l th g (working c))")
     (simp_all add: get_active_session_def fetchone_def bind_def conn_execute_ok return_def
        select_active_rows select_active_snd fetchone_take)

lemma get_active_session_faulted:
  assumes "fault e = Some 0"
  shows "get_active_session e p l th g c = (Inl OperationalError, c)"
  using assms by (simp add: get_active_session_def fetchone_def bind_def conn_execute_def)

lemma execute_ok:
  assumes "fault e \<noteq> Some k"
  shows "execute e k stmt c =
     (Inr (), \<lparr>committed = snd (stmt (clock e k) (working c)),
               working = snd (stmt (clock e k) (working c))\<rparr>)"
  using assms by (simp add: execute_def bind_def conn_execute_ok commit_def)

lemma execute_faulted:
  assumes "fault e = Some k"
  shows "execute e k stmt c = (Inl OperationalError, c)"
  using assms by (simp add: execute_def bind_def conn_execute_def)

lemma upsert_sessions:
  "active_game_sessions (snd (sql_upsert_session i p l th g st ex now t)) =
     (if i \<in> sid ` set (active_game_sessions t)
      then map (\<lambda>r. if sid r = i then upserted st ex now r else r) (active_game_sessions t)
      else active_game_sessions t @
             [\<lparr>sid = i, platform = p, location_id = l, thread_id = th, game_key = g,
               status = ''active'', state = st, created_at = now, updated_at = now,
               expires_at = ex\<rparr>])"
  by (auto simp: sql_upsert_session_def upserted_def)

lemma end_session_sessions:
  "active_game_sessions (snd (sql_end_session st i now t)) =
     map (\<lambda>r. if sid r = i then r\<lparr>status := st, updated_at := now\<rparr> else r) (active_game_sessions t)"
  by (simp add: sql_end_session_def)

lemma end_active_sessions:
  "active_game_sessions (snd (sql_end_active st p l th g now t)) =
     map (\<lambda>r. if in_scope p l th g r \<and> status r = ''active''
               then r\<lparr>status := st, updated_at := now\<rparr> else r) (active_game_sessions t)"
  by (simp add: sql_end_active_def where_tri_state)

lemma end_active_count:
  "fst (sql_end_active st p l th g now t) = length (active_in_scope p l th g t)"
  by (simp add: sql_end_active_def where_tri_state active_in_scope_def)

lemma end_active_in_location_ok:
  assumes "fault e \<noteq> Some 0" "fault e \<noteq> Some 1"
  shows "end_active_in_location e p l th g st c =
     (Inr (length (active_in_scope p l th g (working c))),
      \<lparr>committed = snd (sql_end_active st p l th g (clock e 1) (working c)),
       working = snd (sql_end_active st p l th g (clock e 1) (working c))\<rparr>)"
  using assms
  by (simp add: end_active_in_location_def transaction_def conn_execute_ok sql_begin_def
      commit_def end_active_count)

lemma end_active_in_location_faulted:
  assumes "fault e = Some 0 \<or> fault e = Some 1"
  shows "end_active_in_location e p l th g st c = (Inl OperationalError, rollback c)"
proof (cases "fault e = Some 0")
  case True
  then show ?thesis
    by (simp add: end_active_in_location_def transaction_def conn_execute_def)
next
  case False
  with assms have "fault e = Some 1" by simp
  then show ?thesis
    by (simp add: end_active_in_location_def transaction_def conn_execute_def sql_begin_def
        rollback_def)
qed

lemma find_sid_map:
  assumes "\<And>r. sid (f r) = sid r"
  shows "find (\<lambda>r. sid r = j) (map (\<lambda>r. if P r then f r else r) (xs :: session_row list)) =
         map_option (\<lambda>r. if P r then f r else r) (find (\<lambda>r. sid r = j) xs)"
  by (induction xs) (simp_all add: assms)

lemma find_sid: "find (\<lambda>r. sid r = j) (xs :: session_row list) = Some r \<Longrightarrow> sid r = j \<and> r \<in> set xs"
  by (induction xs) (auto split: if_splits)

lemma find_sid_none: "j \<notin> sid ` set (xs :: session_row list) \<Longrightarrow> find (\<lambda>r. sid r = j) xs = None"
  by (induction xs) auto

lemma find_sid_some: "j \<in> sid ` set (xs :: session_row list) \<Longrightarrow> \<exists>r. find (\<lambda>r. sid r = j) xs = Some r"
  by (induction xs) auto

lemma find_snoc:
  "find P (xs @ [x]) = (case find P xs of Some r \<Rightarrow> Some r | None \<Rightarrow> if P x then Some x else None)"
  by (induction xs) simp_all

lemma upserted_sid: "sid (upserted st ex now r) = sid r"
  by (simp add: upserted_def)

lemma session_by_id_upsert:
  "session_by_id (snd (sql_upsert_session i p l th g st ex now t)) j =
     (if j = i
      then (case session_by_id t i of
              Some r \<Rightarrow> Some (upserted st ex now r)
            | None \<Rightarrow> Some \<lparr>sid = i, platform = p, location_id = l, thread_id = th, game_key = g,
                 status = ''active'', state = st, created_at = now, updated_at = now,
                 expires_at = ex\<rparr>)
      else session_by_id t j)"
proof (cases "i \<in> sid ` set (active_game_sessions t)")
  case True
  then obtain r where r: "find (\<lambda>r. sid r = i) (active_game_sessions t) = Some r"
    using find_sid_some by blast
  show ?thesis
  proof (cases "j = i")
    case ji: True
    then show ?thesis using True r find_sid [OF r]
      by (simp add: session_by_id_def upsert_sessions find_sid_map upserted_sid)
  next
    case ji: False
    show ?thesis
    proof (cases "find (\<lambda>r. sid r = j) (active_game_sessions t)")
      case None
      then show ?thesis using True ji
        by (simp add: session_by_id_def upsert_sessions find_sid_map upserted_sid)
    next
      case (Some q)
      then show ?thesis using True ji find_sid [OF Some]
        by (simp add: session_by_id_def upsert_sessions find_sid_map upserted_sid)
    qed
  qed
next
  case False
  then have n: "find (\<lambda>r. sid r = i) (active_game_sessions t) = None"
    by (rule find_sid_none)
  show ?thesis
  proof (cases "j = i")
    case ji: True
    then show ?thesis using False n
      by (simp add: session_by_id_def upsert_sessions find_snoc)
  next
    case ji: False
    then show ?thesis using False
      by (cases "find (\<lambda>r. sid r = j) (active_game_sessions t)")
         (simp_all add: session_by_id_def upsert_sessions find_snoc)
  qed
qed

lemma session_status_end_session:
  "session_status (snd (sql_end_session st i now t)) j =
     (if j = i then map_option (\<lambda>_. st) (session_status t i) else session_status t j)"
proof (cases "find (\<lambda>r. sid r = j) (active_game_sessions t)")
  case None
  then show ?thesis
    by (auto simp: session_status_def session_by_id_def end_session_sessions find_sid_map)
next
  case (Some q)
  then show ?thesis using find_sid [OF Some]
    by (auto simp: session_status_def session_by_id_def end_session_sessions find_sid_map)
qed

lemma session_status_end_active:
  assumes "session_status t j = Some s" "s \<noteq> ''active''"
  shows "session_status (snd (sql_end_active st p l th g now t)) j = Some s"
proof -
  from assms(1) obtain q where q: "find (\<lambda>r. sid r = j) (active_game_sessions t) = Some q"
    and s: "status q = s"
    by (auto simp: session_status_def session_by_id_def)
  show ?thesis using q s assms(2)
    by (simp add: session_status_def session_by_id_def end_active_sessions find_sid_map)
qed

lemma upsert_active_session_ok:
  assumes "json_dumps st = Inr j" "fault e \<noteq> Some 0"
  shows "upsert_active_session json_dumps e i p l th g st ex c =
     (Inr (), \<lparr>committed = snd (sql_upsert_session i p l th g j ex (clock e 0) (working c)),
               working = snd (sql_upsert_session i p l th g j ex (clock e 0) (working c))\<rparr>)"
  using assms by (simp add: upsert_active_session_def execute_ok)

lemma upsert_active_session_failed:
  assumes "json_dumps st = Inl x \<or> fault e = Some 0"
  shows "snd (upsert_active_session json_dumps e i p l th g st ex c) = c"
  using assms
  by (cases "json_dumps st") (auto simp: upsert_active_session_def raise_def execute_faulted)

lemma end_session_ok:
  assumes "fault e \<noteq> Some 0"
  shows "end_session e i st c =
     (Inr (), \<lparr>committed = snd (sql_end_session st i (clock e 0) (working c)),
               working = snd (sql_end_session st i (clock e 0) (working c))\<rparr>)"
  using assms by (simp add: end_session_def execute_ok)

lemma upsert_other_tables:
  "bean_accounts (snd (sql_upsert_session i p l th g st ex now t)) = bean_accounts t"
  "bean_transactions (snd (sql_upsert_session i p l th g st ex now t)) = bean_transactions t"
  "txn_seq (snd (sql_upsert_session i p l th g st ex now t)) = txn_seq t"
  by (simp_all add: sql_upsert_session_def)

lemma upsert_ids:
  "map sid (active_game_sessions (snd (sql_upsert_session i p l th g st ex now t))) =
     (if i \<in> sid ` set (active_game_sessions t) then map sid (active_game_sessions t)
      else map sid (active_game_sessions t) @ [i])"
proof -
  have "map sid (map (\<lambda>r. if sid r = i then upserted st ex now r else r) xs) = map sid xs"
    for xs :: "session_row list"
    by (induction xs) (simp_all add: upserted_sid)
  then show ?thesis
    by (simp add: upsert_sessions)
qed

lemma upsert_distinct:
  assumes "distinct (map sid (active_game_sessions t))"
  shows "distinct (map sid (active_game_sessions (snd (sql_upsert_session i p l th g st ex now t))))"
  using assms by (auto simp: upsert_ids)

lemma filter_sid_find:
  assumes "distinct (map sid (xs :: session_row list))"
  shows "filter (\<lambda>r. sid r = i) xs = (case find (\<lambda>r. sid r = i) xs of None \<Rightarrow> [] | Some r \<Rightarrow> [r])"
  using assms
proof (induction xs)
  case Nil
  then show ?case by simp
next
  case (Cons a xs)
  show ?case
  proof (cases "sid a = i")
    case True
    with Cons.prems have "i \<notin> sid ` set xs" by auto
    then have "filter (\<lambda>r. sid r = i) xs = []"
      by (auto simp: filter_empty_conv)
    with True show ?thesis by simp
  next
    case False
    with Cons show ?thesis by simp
  qed
qed

lemma ended_conn_eq:
  "ended_conn =
     \<lparr>committed = empty_tables\<lparr>active_game_sessions :=
         [\<lparr>sid = ''id1'', platform = ''discord'', location_id = ''42'', thread_id = None,
           game_key = ''wordle'', status = ''ended'', state = ''{x: 1}'',
           created_at = ''2024-05-01 12:00:00'', updated_at = ''2024-05-01 12:00:00'',
           expires_at = None\<rparr>]\<rparr>,
      working = empty_tables\<lparr>active_game_sessions :=
         [\<lparr>sid = ''id1'', platform = ''discord'', location_id = ''42'', thread_id = None,
           game_key = ''wordle'', status = ''ended'', state = ''{x: 1}'',
           created_at = ''2024-05-01 12:00:00'', updated_at = ''2024-05-01 12:00:00'',
           expires_at = None\<rparr>]\<rparr>\<rparr>"
  by (simp add: ended_conn_def end_session_ok upsert_active_session_ok raw_json_def no_fault_simps
      fresh_conn_def empty_tables_def sql_upsert_session_def sql_end_session_def sample_clock_def)

lemma run_session_op_ended:
  assumes "session_status (committed c) i = Some ''ended''" "working c = committed c"
    and "\<not> rewrites_status i (snd x)"
  shows "session_status (committed (run_session_op json_dumps x c)) i = Some ''ended'' \<and>
         working (run_session_op json_dumps x c) = committed (run_session_op json_dumps x c)"
proof (cases "snd x")
  case (GetActive p l th g)
  have "snd (get_active_session (fst x) p l th g c) = c"
    by (cases "fault (fst x) = Some 0")
       (simp_all add: get_active_session_ok get_active_session_faulted)
  then show ?thesis using assms GetActive by (simp add: run_session_op_def)
next
  case (UpsertActive j p l th g st ex)
  with assms(3) have ji: "i \<noteq> j" by (auto simp: rewrites_status_def)
  show ?thesis
  proof (cases "json_dumps st")
    case (Inl e)
    then have "snd (upsert_active_session json_dumps (fst x) j p l th g st ex c) = c"
      using upsert_active_session_failed [of json_dumps st e] by simp
    then show ?thesis using assms UpsertActive
      by (simp add: run_session_op_def)
  next
    case (Inr js)
    show ?thesis
    proof (cases "fault (fst x) = Some 0")
      case True
      then have "snd (upsert_active_session json_dumps (fst x) j p l th g st ex c) = c"
        using upsert_active_session_failed [of json_dumps st _ "fst x"] by simp
      then show ?thesis using assms UpsertActive
        by (simp add: run_session_op_def)
    next
      case False
      then show ?thesis using assms(1,2) UpsertActive Inr ji
        by (simp add: run_session_op_def upsert_active_session_ok session_status_def
            session_by_id_upsert)
    qed
  qed
next
  case (End j st)
  with assms(3) have js: "j = i \<longrightarrow> st = ''ended''" by (auto simp: rewrites_status_def)
  show ?thesis
  proof (cases "fault (fst x) = Some 0")
    case True
    then show ?thesis using assms End
      by (simp add: run_session_op_def end_session_def execute_faulted)
  next
    case False
    then show ?thesis using assms(1,2) End js
      by (auto simp: run_session_op_def end_session_ok session_status_end_session)
  qed
next
  case (EndActiveInScope p l th g st)
  show ?thesis
  proof (cases "fault (fst x) = Some 0 \<or> fault (fst x) = Some 1")
    case True
    then show ?thesis using assms EndActiveInScope
      by (simp add: run_session_op_def end_active_in_location_faulted rollback_def)
  next
    case False
    have "session_status (snd (sql_end_active st p l th g (clock (fst x) 1) (working c))) i = Some ''ended''"
      using assms(1,2) by (intro session_status_end_active) simp_all
    then show ?thesis using False EndActiveInScope
      by (simp add: run_session_op_def end_active_in_location_ok)
  qed
qed

lemma fold_session_ops_ended:
  assumes "session_status (committed c) i = Some ''ended''" "working c = committed c"
    and "\<forall>x \<in> set ops. \<not> rewrites_status i (snd x)"
  shows "session_status (committed (fold (run_session_op json_dumps) ops c)) i = Some ''ended''"
  using assms
proof (induction ops arbitrary: c)
  case Nil
  then show ?case by simp
next
  case (Cons x ops)
  have "session_status (committed (run_session_op json_dumps x c)) i = Some ''ended'' \<and>
        working (run_session_op json_dumps x c) = committed (run_session_op json_dumps x c)"
    using Cons.prems by (intro run_session_op_ended) simp_all
  then show ?case using Cons.IH [of "run_session_op json_dumps x c"] Cons.prems(3)
    by simp
qed


section \<open>The session store: claims\<close>

text \<open>
  Claim C5 fails as stated: a session that was created and then ended is active again
  after an \<^verbatim>\<open>upsert_active_session\<close> with its id.
\<close>

theorem ended_is_not_terminal:
  "session_status (committed ended_conn) ''id1'' = Some ''ended'' \<and>
   session_status
     (committed (snd (upsert_active_session raw_json (no_fault later_clock)
        ''id1'' ''discord'' ''42'' None ''wordle'' ''{x: 2}'' None ended_conn))) ''id1''
     = Some ''active''"
  by (simp add: ended_conn_eq upsert_active_session_ok raw_json_def no_fault_simps
      session_status_def session_by_id_def sql_upsert_session_def empty_tables_def)

text \<open>
  Claim C5, amended. Once the status of a session is ended, it is still ended after every
  sequence of session store operations (returning or raising) that contains no
  \<^verbatim>\<open>upsert_active_session\<close> with that id and no \<^verbatim>\<open>end_session\<close> of that id with a
  status other than ended; and an \<^verbatim>\<open>upsert_active_session\<close> with that id makes the
  session active.
\<close>

theorem ended_left_only_by_upsert:
  "(session_status (committed c) i = Some ''ended'' \<and> working c = committed c \<and>
    (\<forall>x \<in> set ops. \<not> rewrites_status i (snd x)) \<longrightarrow>
      session_status (committed (fold (run_session_op json_dumps) ops c)) i = Some ''ended'') \<and>
   (json_dumps st = Inr j \<longrightarrow>
      session_status
        (committed (snd (upsert_active_session json_dumps (no_fault clk) i p l th g st ex c))) i
        = Some ''active'')"
proof -
  have "session_status
        (committed (snd (upsert_active_session json_dumps (no_fault clk) i p l th g st ex c))) i
        = Some ''active''" if "json_dumps st = Inr j"
    using that
    by (cases "session_by_id (working c) i")
       (simp_all add: upsert_active_session_ok no_fault_simps session_status_def
          session_by_id_upsert upserted_def)
  then show ?thesis
    using fold_session_ops_ended [of c i ops json_dumps] by blast
qed

text \<open>
  Claim C5, amended, at the ended session id1: a lookup, an upsert of another id, a bulk
  end of its scope and a second \<^verbatim>\<open>end_session\<close> leave it ended; an upsert of id1 revives it.
\<close>

theorem ended_left_only_by_upsert_witness:
  "session_status (committed ended_conn) ''id1'' = Some ''ended'' \<and>
   working ended_conn = committed ended_conn \<and>
   \<not> rewrites_status ''id1'' (GetActive ''discord'' ''42'' None ''wordle'' :: string session_op) \<and>
   \<not> rewrites_status ''id1'' (EndActiveInScope ''discord'' ''42'' None ''wordle'' ''ended'' :: string session_op) \<and>
   \<not> rewrites_status ''id1'' (UpsertActive ''id2'' ''discord'' ''42'' None ''wordle'' ''{x: 2}'' None) \<and>
   \<not> rewrites_status ''id1'' (End ''id1'' ''ended'' :: string session_op) \<and>
   session_status (committed (fold (run_session_op raw_json)
      [(no_fault sample_clock, GetActive ''discord'' ''42'' None ''wordle''),
       (no_fault sample_clock, UpsertActive ''id2'' ''discord'' ''42'' None ''wordle'' ''{x: 2}'' None),
       (no_fault sample_clock, EndActiveInScope ''discord'' ''42'' None ''wordle'' ''ended''),
       (no_fault later_clock, End ''id1'' ''ended'')] ended_conn)) ''id1'' = Some ''ended'' \<and>
   raw_json ''{x: 2}'' = Inr ''{x: 2}'' \<and>
   session_status (committed (snd (upsert_active_session raw_json (no_fault later_clock)
       ''id1'' ''discord'' ''42'' None ''wordle'' ''{x: 2}'' None ended_conn))) ''id1'' = Some ''active''"
proof -
  have s: "session_status (committed ended_conn) ''id1'' = Some ''ended''"
    by (simp add: ended_conn_eq session_status_def session_by_id_def empty_tables_def)
  have i: "working ended_conn = committed ended_conn"
    by (simp add: ended_conn_eq)
  have j: "raw_json ''{x: 2}'' = Inr ''{x: 2}''"
    by (simp add: raw_json_def)
  show ?thesis
    using s i j
      ended_left_only_by_upsert [of ended_conn "''id1''"
        "[(no_fault sample_clock, GetActive ''discord'' ''42'' None ''wordle''),
          (no_fault sample_clock, UpsertActive ''id2'' ''discord'' ''42'' None ''wordle'' ''{x: 2}'' None),
          (no_fault sample_clock, EndActiveInScope ''discord'' ''42'' None ''wordle'' ''ended''),
          (no_fault later_clock, End ''id1'' ''ended'')]"
        raw_json "''{x: 2}''" "''{x: 2}''" later_clock "''discord''" "''42''" None "''wordle''" None]
    by (simp add: rewrites_status_def)
qed

text \<open>
  Claim C6. On a table whose ids are distinct (the primary key), after two
  \<^verbatim>\<open>upsert_active_session\<close> calls with the same id that the store and the serialiser
  let through, exactly one row has that id; its state, \<^verbatim>\<open>updated_at\<close> and
  \<^verbatim>\<open>expires_at\<close> are those of the second call and its status is active; whether the
  first call inserted the row or found it.
\<close>

theorem upsert_active_session_idempotent:
  assumes "distinct (map sid (active_game_sessions (working c)))"
    and "json_dumps sta = Inr ja" and "json_dumps stb = Inr jb"
  shows "let ca = snd (upsert_active_session json_dumps (no_fault clka) i pa la tha ga sta exa c);
             rb = upsert_active_session json_dumps (no_fault clkb) i pb lb thb gb stb exb ca;
             cb = snd rb
         in fst rb = Inr () \<and> working cb = committed cb \<and>
            (\<exists>r. filter (\<lambda>r. sid r = i) (active_game_sessions (committed cb)) = [r] \<and>
                 state r = jb \<and> updated_at r = clkb 0 \<and> expires_at r = exb \<and>
                 status r = ''active'') \<and>
            distinct (map sid (active_game_sessions (committed cb)))"
proof -
  let ?ta = "snd (sql_upsert_session i pa la tha ga ja exa (clka 0) (working c))"
  let ?tb = "snd (sql_upsert_session i pb lb thb gb jb exb (clkb 0) ?ta)"
  have da: "distinct (map sid (active_game_sessions ?ta))"
    using assms(1) by (rule upsert_distinct)
  have db: "distinct (map sid (active_game_sessions ?tb))"
    using da by (rule upsert_distinct)
  obtain ra where ra: "session_by_id ?ta i = Some ra"
    by (cases "session_by_id (working c) i") (simp_all add: session_by_id_upsert)
  have "session_by_id ?tb i = Some (upserted jb exb (clkb 0) ra)"
    using ra by (simp add: session_by_id_upsert)
  then have "filter (\<lambda>r. sid r = i) (active_game_sessions ?tb) = [upserted jb exb (clkb 0) ra]"
    using filter_sid_find [OF db, of i] by (simp add: session_by_id_def)
  then have row: "\<exists>r. filter (\<lambda>r. sid r = i) (active_game_sessions ?tb) = [r] \<and>
                 state r = jb \<and> updated_at r = clkb 0 \<and> expires_at r = exb \<and>
                 status r = ''active''"
    by (simp add: upserted_def)
  show ?thesis
    using row db assms(2,3)
    by (simp add: Let_def upsert_active_session_ok no_fault_simps)
qed

text \<open>Claim C6, for an id that exists (id1) and for one that the first call inserts (id7).\<close>

theorem upsert_active_session_idempotent_witness:
  "distinct (map sid (active_game_sessions (working ended_conn))) \<and>
   raw_json ''{x: 5}'' = Inr ''{x: 5}'' \<and> raw_json ''{x: 6}'' = Inr ''{x: 6}'' \<and>
   map state (filter (\<lambda>r. sid r = ''id1'')
     (active_game_sessions (committed
        (snd (upsert_active_session raw_json (no_fault later_clock)
                ''id1'' ''discord'' ''42'' None ''wordle'' ''{x: 6}'' None
           (snd (upsert_active_session raw_json (no_fault sample_clock)
                   ''id1'' ''discord'' ''42'' None ''wordle'' ''{x: 5}'' None ended_conn))))))) = [''{x: 6}''] \<and>
   map status (filter (\<lambda>r. sid r = ''id7'')
     (active_game_sessions (committed
        (snd (upsert_active_session raw_json (no_fault later_clock)
                ''id7'' ''discord'' ''42'' None ''wordle'' ''{x: 6}'' None
           (snd (upsert_active_session raw_json (no_fault sample_clock)
                   ''id7'' ''discord'' ''42'' None ''wordle'' ''{x: 5}'' None ended_conn))))))) = [''active'']"
proof -
  have d: "distinct (map sid (active_game_sessions (working ended_conn)))"
    by (simp add: ended_conn_eq empty_tables_def)
  have j: "raw_json ''{x: 5}'' = Inr ''{x: 5}''" "raw_json ''{x: 6}'' = Inr ''{x: 6}''"
    by (simp_all add: raw_json_def)
  show ?thesis
    using d j
      upsert_active_session_idempotent [where c = ended_conn and json_dumps = raw_json
        and sta = "''{x: 5}''" and ja = "''{x: 5}''" and stb = "''{x: 6}''" and jb = "''{x: 6}''"
        and clka = sample_clock and clkb = later_clock and i = "''id1''"
        and pa = "''discord''" and la = "''42''" and tha = None and ga = "''wordle''" and exa = None
        and pb = "''discord''" and lb = "''42''" and thb = None and gb = "''wordle''" and exb = None]
      upsert_active_session_idempotent [where c = ended_conn and json_dumps = raw_json
        and sta = "''{x: 5}''" and ja = "''{x: 5}''" and stb = "''{x: 6}''" and jb = "''{x: 6}''"
        and clka = sample_clock and clkb = later_clock and i = "''id7''"
        and pa = "''discord''" and la = "''42''" and tha = None and ga = "''wordle''" and exa = None
        and pb = "''discord''" and lb = "''42''" and thb = None and gb = "''wordle''" and exb = None]
    by (auto simp: Let_def)
qed



text \<open>
  Claim C10. When \<^verbatim>\<open>upsert_active_session\<close> finds a row with the id, the row afterwards
  is the old row with \<^verbatim>\<open>status\<close>, \<^verbatim>\<open>state\<close>, \<^verbatim>\<open>updated_at\<close> and \<^verbatim>\<open>expires_at\<close>
  rewritten: id, platform, location, thread, game and \<^verbatim>\<open>created_at\<close> keep their values
  whatever scope the call passes; the rows of other ids, the order of the table and the
  ledger tables are untouched.
\<close>

theorem upsert_existing_session_frame:
  assumes "session_by_id (working c) i = Some r0" and "json_dumps st = Inr j"
  shows "let c' = snd (upsert_active_session json_dumps (no_fault clk) i p l th g st ex c)
         in session_by_id (committed c') i =
              Some (r0\<lparr>status := ''active'', state := j, updated_at := clk 0, expires_at := ex\<rparr>) \<and>
            (\<exists>r. session_by_id (committed c') i = Some r \<and> sid r = sid r0 \<and>
                 platform r = platform r0 \<and> location_id r = location_id r0 \<and>
                 thread_id r = thread_id r0 \<and> game_key r = game_key r0 \<and>
                 created_at r = created_at r0) \<and>
            (\<forall>k. k \<noteq> i \<longrightarrow> session_by_id (committed c') k = session_by_id (working c) k) \<and>
            map sid (active_game_sessions (committed c')) = map sid (active_game_sessions (working c)) \<and>
            bean_accounts (committed c') = bean_accounts (working c) \<and>
            bean_transactions (committed c') = bean_transactions (working c)"
proof -
  from assms(1) have "i \<in> sid ` set (active_game_sessions (working c))"
    using find_sid [of i "active_game_sessions (working c)" r0]
    by (auto simp: session_by_id_def)
  then show ?thesis
    using assms
    by (simp add: Let_def upsert_active_session_ok no_fault_simps session_by_id_upsert
        upserted_def upsert_other_tables upsert_ids)
qed

text \<open>Claim C10, at a call that passes another platform, location, thread and game.\<close>

theorem upsert_existing_session_frame_witness:
  "session_by_id (working ended_conn) ''id1'' =
     Some \<lparr>sid = ''id1'', platform = ''discord'', location_id = ''42'', thread_id = None,
           game_key = ''wordle'', status = ''ended'', state = ''{x: 1}'',
           created_at = ''2024-05-01 12:00:00'', updated_at = ''2024-05-01 12:00:00'',
           expires_at = None\<rparr> \<and>
   raw_json ''{x: 9}'' = Inr ''{x: 9}'' \<and>
   session_by_id (committed (snd (upsert_active_session raw_json (no_fault later_clock)
       ''id1'' ''telegram'' ''99'' (Some ''t1'') ''unscramble'' ''{x: 9}'' (Some ''2024-06-01 00:00:00'')
       ended_conn))) ''id1'' =
     Some \<lparr>sid = ''id1'', platform = ''discord'', location_id = ''42'', thread_id = None,
           game_key = ''wordle'', status = ''active'', state = ''{x: 9}'',
           created_at = ''2024-05-01 12:00:00'', updated_at = ''2024-05-01 12:30:00'',
           expires_at = Some ''2024-06-01 00:00:00''\<rparr>"
proof -
  let ?r0 = "\<lparr>sid = ''id1'', platform = ''discord'', location_id = ''42'', thread_id = None,
           game_key = ''wordle'', status = ''ended'', state = ''{x: 1}'',
           created_at = ''2024-05-01 12:00:00'', updated_at = ''2024-05-01 12:00:00'',
           expires_at = None\<rparr>"
  have r0: "session_by_id (working ended_conn) ''id1'' = Some ?r0"
    by (simp add: ended_conn_eq session_by_id_def empty_tables_def)
  have j: "raw_json ''{x: 9}'' = Inr ''{x: 9}''"
    by (simp add: raw_json_def)
  show ?thesis
    using r0 j
      upsert_existing_session_frame [where c = ended_conn and i = "''id1''" and ?r0.0 = ?r0
        and json_dumps = raw_json and st = "''{x: 9}''" and j = "''{x: 9}''" and clk = later_clock
        and p = "''telegram''" and l = "''99''" and th = "Some ''t1''" and g = "''unscramble''"
        and ex = "Some ''2024-06-01 00:00:00''"]
    by (simp add: Let_def later_clock_def)
qed

section \<open>The coalescing scheduler: lemmas\<close>
















section \<open>The coalescing scheduler: claims\<close>






end
